theory Spec2Isabelle
  imports Complex_Main "HOL-Library.Word"
begin

section \<open>gpu-burn (Windows port): the driver \<^verbatim>\<open>src/win/gpu_burn-drv.cpp\<close>\<close>

text \<open>
  A shallow embedding of the burn driver: the per-device test object \<^verbatim>\<open>GPU_Test\<close>, the
  decoding of the \<^verbatim>\<open>-m\<close> option, and the monitor \<^verbatim>\<open>listenClients\<close> with its poll loop and
  its shutdown sequence.

  Conventions.
  \<^item> \<^verbatim>\<open>int\<close> is a 32-bit word, \<^verbatim>\<open>long long\<close>, \<^verbatim>\<open>ssize_t\<close>, \<^verbatim>\<open>size_t\<close> and the
    \<^verbatim>\<open>QuadPart\<close> of a \<^verbatim>\<open>FILETIME\<close> are 64-bit words (the \<^verbatim>\<open>_WIN64\<close> build); arithmetic
    wraps, \<^verbatim>\<open><\<close> on words is the unsigned comparison, \<open>sint\<close> reads a word as signed.
  \<^item> \<^verbatim>\<open>time_t\<close> seconds are unbounded integers.
  \<^item> \<^verbatim>\<open>float\<close> and \<^verbatim>\<open>double\<close> values are real numbers: every floating-point operation is
    taken exactly, its rounding is not modelled. Comparisons whose outcome does not
    depend on rounding are noted where they occur.
  \<^item> Calls into the CUDA driver, the pipes and the clock are inputs: each function takes
    the outcome of the calls it makes.
\<close>

type_synonym int32 = "32 word"
type_synonym int64 = "64 word"
type_synonym filetime = "64 word"

subsection \<open>Constants\<close>

definition MATRIX_SIZE :: int64 where
  "MATRIX_SIZE = 8192"

definition OPS_PER_MUL :: int64 where
  "OPS_PER_MUL = 1100048498688"

definition SIGTERM_TIMEOUT_THRESHOLD_SECS :: int where
  "SIGTERM_TIMEOUT_THRESHOLD_SECS = 30"

definition ENOMEDIUM :: nat where
  "ENOMEDIUM = 123"

definition EMEDIUMTYPE :: nat where
  "EMEDIUMTYPE = 124"


definition ERROR_BROKEN_PIPE :: nat where
  "ERROR_BROKEN_PIPE = 109"

definition STILL_ACTIVE :: nat where
  "STILL_ACTIVE = 259"

subsection \<open>\<^verbatim>\<open>GPU_Test\<close>: the worker's test object\<close>

text \<open>
  The fields of \<^verbatim>\<open>GPU_Test\<close> that the driver computes with. \<open>d_faultyElemsHost\<close> is the
  \<^verbatim>\<open>int\<close> behind the pointer of that name: the host copy of the device's faulty-element
  counter, written by the asynchronous copy that \<^verbatim>\<open>compare()\<close> queues.
\<close>

record GPU_Test =
  d_devNumber :: int32
  d_doubles :: bool
  d_tensors :: bool
  d_iters :: int64
  d_error :: int64
  d_faultyElemsHost :: int32

text \<open>
  \<^verbatim>\<open>getErrors()\<close>, lines 175-182: a nonzero host counter is added to \<open>d_error\<close> (widened
  from \<^verbatim>\<open>int\<close> to \<^verbatim>\<open>long long\<close>, hence \<open>scast\<close>), the total is returned and \<open>d_error\<close> is
  cleared. The host counter itself is not written.
\<close>

definition getErrors :: "GPU_Test \<Rightarrow> int64 \<times> GPU_Test" where
  "getErrors g =
     (let g1 = (if d_faultyElemsHost g \<noteq> 0
                then g\<lparr>d_error := d_error g + scast (d_faultyElemsHost g)\<rparr>
                else g);
          tempErrs = d_error g1
      in (tempErrs, g1\<lparr>d_error := 0\<rparr>))"

definition getIters :: "GPU_Test \<Rightarrow> int64" where
  "getIters g = d_iters g"


subsection \<open>The CUDA driver as an input\<close>

text \<open>
  What \<^verbatim>\<open>checkError\<close> throws is a \<^verbatim>\<open>std::runtime_error\<close> carrying the description given at
  the call; \<^verbatim>\<open>initBuffers\<close> throws a \<^verbatim>\<open>std::string\<close> when the memory is too small (which the
  handler of \<^verbatim>\<open>startBurnThread\<close>, catching \<^verbatim>\<open>std::exception\<close>, does not catch).
\<close>

datatype error = LowMem | CudaError string

text \<open>
  The outcome of each driver call a \<^verbatim>\<open>GPU_Test\<close> makes: \<open>True\<close> for \<^verbatim>\<open>CUDA_SUCCESS\<close>,
  \<^verbatim>\<open>cuMemGetInfo\<close> with the free and the total byte counts it stores, \<^verbatim>\<open>cuMemAlloc\<close> by
  the size requested, and \<open>initCompareKernel\<close> with the description of the first call of
  that function (lines 261-289) that fails, if one does.
\<close>

record cuda =
  cuDeviceGet :: bool
  cuCtxCreate :: bool
  cuCtxSetCurrent :: bool
  cublasCreate :: bool
  cublasSetMathMode :: bool
  cuMemAllocHost :: bool
  cuMemGetInfo :: "(int64 \<times> int64) option"
  cuMemAlloc :: "int64 \<Rightarrow> bool"
  cuMemcpyHtoD :: bool
  initCompareKernel :: "string option"

definition bindE :: "'e + 'a \<Rightarrow> ('a \<Rightarrow> 'e + 'b) \<Rightarrow> 'e + 'b" where
  "bindE m f = (case m of Inl e \<Rightarrow> Inl e | Inr a \<Rightarrow> f a)"

definition checkError :: "bool \<Rightarrow> string \<Rightarrow> error + unit" where
  "checkError rCode desc = (if rCode then Inr () else Inl (CudaError desc))"

definition bind :: "cuda \<Rightarrow> error + unit" where
  "bind c = checkError (cuCtxSetCurrent c) ''Bind CTX''"

definition totalMemory :: "cuda \<Rightarrow> error + int64" where
  "totalMemory c =
     bindE (bind c) (\<lambda>_.
       case cuMemGetInfo c of
         None \<Rightarrow> Inl (CudaError [])
       | Some (freeMem, totalMem) \<Rightarrow> Inr totalMem)"

definition availMemory :: "cuda \<Rightarrow> error + int64" where
  "availMemory c =
     bindE (bind c) (\<lambda>_.
       case cuMemGetInfo c of
         None \<Rightarrow> Inl (CudaError [])
       | Some (freeMem, totalMem) \<Rightarrow> Inr freeMem)"

subsection \<open>The shared flag \<^verbatim>\<open>g_running\<close>\<close>





subsection \<open>\<^verbatim>\<open>initBuffers\<close>\<close>

definition USEMEM :: real where
  "USEMEM = 9 / 10"

text \<open>
  \<^verbatim>\<open>(ssize_t)((double)avail * f)\<close>: the conversion to \<^verbatim>\<open>ssize_t\<close> drops the fraction
  (towards zero). The product is exact here.
\<close>

definition to_ssize_t :: "real \<Rightarrow> int64" where
  "to_ssize_t r = word_of_int (if 0 \<le> r then \<lfloor>r\<rfloor> else \<lceil>r\<rceil>)"

definition scale_mem :: "int64 \<Rightarrow> real \<Rightarrow> int64" where
  "scale_mem avail f = to_ssize_t (real (unat avail) * f)"

text \<open>
  Lines 205-208: 0 stands for the default share \<^verbatim>\<open>USEMEM\<close> of the free memory, a negative
  value \<open>- p\<close> for \<open>p\<close> percent of it, a positive value for itself.
\<close>

definition resolveUseBytes :: "cuda \<Rightarrow> int64 \<Rightarrow> error + int64" where
  "resolveUseBytes c useBytes =
     bindE (if useBytes = 0
            then bindE (availMemory c) (\<lambda>avail. Inr (scale_mem avail USEMEM))
            else Inr useBytes) (\<lambda>useBytes1.
       if sint useBytes1 < 0
       then bindE (availMemory c) (\<lambda>avail.
              Inr (scale_mem avail (real_of_int (sint (- useBytes1)) / 100)))
       else Inr useBytes1)"

text \<open>\<^verbatim>\<open>sizeof(T)\<close>: the driver instantiates \<^verbatim>\<open>T = double\<close> exactly when doubles are used.\<close>

definition sizeof_T :: "bool \<Rightarrow> int64" where
  "sizeof_T doubles = (if doubles then 8 else 4)"

definition d_resultSize :: "bool \<Rightarrow> int64" where
  "d_resultSize doubles = sizeof_T doubles * MATRIX_SIZE * MATRIX_SIZE"

text \<open>
  \<^verbatim>\<open>initBuffers\<close>, lines 202-234. The calls of \<^verbatim>\<open>totalMemory()\<close> and \<^verbatim>\<open>availMemory()\<close> in
  the first \<^verbatim>\<open>printf\<close> can throw and are kept; the printing itself is not. \<open>d_iters\<close> is
  computed in \<^verbatim>\<open>size_t\<close> arithmetic before the size is checked, and the check compares
  \<^verbatim>\<open>(size_t)useBytes\<close>, so both are unsigned.
\<close>

definition initBuffers :: "cuda \<Rightarrow> int64 \<Rightarrow> GPU_Test \<Rightarrow> error + GPU_Test" where
  "initBuffers c useBytes0 g =
     bindE (bind c) (\<lambda>_.
     bindE (resolveUseBytes c useBytes0) (\<lambda>useBytes.
     bindE (totalMemory c) (\<lambda>_.
     bindE (availMemory c) (\<lambda>_.
       let resultSize = d_resultSize (d_doubles g);
           g1 = g\<lparr>d_iters := (useBytes - 2 * resultSize) div resultSize\<rparr>
       in if useBytes < 3 * resultSize then Inl LowMem
          else
            bindE (checkError (cuMemAlloc c (d_iters g1 * resultSize)) ''C alloc'') (\<lambda>_.
            bindE (checkError (cuMemAlloc c resultSize) ''A alloc'') (\<lambda>_.
            bindE (checkError (cuMemAlloc c resultSize) ''B alloc'') (\<lambda>_.
            bindE (checkError (cuMemAlloc c 4) ''faulty data'') (\<lambda>_.
            bindE (checkError (cuMemcpyHtoD c) ''A -> device'') (\<lambda>_.
            bindE (checkError (cuMemcpyHtoD c) ''B -> device'') (\<lambda>_.
              case initCompareKernel c of
                Some desc \<Rightarrow> Inl (CudaError desc)
              | None \<Rightarrow> Inr g1))))))))))"

subsection \<open>Decoding the \<^verbatim>\<open>-m\<close> option\<close>










subsection \<open>The monitor's state\<close>

text \<open>
  \<^verbatim>\<open>listenClients\<close> keeps one vector per quantity, all indexed by the client (lines
  553-576). \<open>gpuIter\<close> is the \<^verbatim>\<open>static\<close> counter of \<^verbatim>\<open>updateTemps\<close>. Every vector is given
  one entry per client handle before the loop starts and none is resized afterwards, so
  every \<^verbatim>\<open>at(i)\<close> of the loops below is in range and is written as \<open>!\<close> and list update.
\<close>

record monitor =
  clientTemp :: "int32 list"
  clientErrors :: "int32 list"
  clientCalcs :: "int32 list"
  clientUpdateTime :: "filetime list"
  clientGflops :: "real list"
  clientFaulty :: "bool list"
  clientFirstUpdate :: "bool list"
  nextReport :: real
  childReport :: bool
  gpuIter :: nat

text \<open>
  The state before the first pass. \<open>stamps\<close> holds the clock reading taken for each client
  as its entries are pushed, so its length is the number of clients.
\<close>

definition init_monitor :: "filetime list \<Rightarrow> monitor" where
  "init_monitor stamps =
     \<lparr>clientTemp = map (\<lambda>_. 0) stamps,
      clientErrors = map (\<lambda>_. 0) stamps,
      clientCalcs = map (\<lambda>_. 0) stamps,
      clientUpdateTime = stamps,
      clientGflops = map (\<lambda>_. 0) stamps,
      clientFaulty = map (\<lambda>_. False) stamps,
      clientFirstUpdate = map (\<lambda>_. True) stamps,
      nextReport = 10,
      childReport = False,
      gpuIter = 0\<rparr>"

subsection \<open>Consuming one report\<close>

text \<open>
  Line 611: the two \<^verbatim>\<open>QuadPart\<close>s are unsigned 64-bit counts of 100 ns ticks, their
  difference wraps, and the result is converted to \<^verbatim>\<open>double\<close> and divided by \<open>10\<^sup>7\<close>.
\<close>

definition clientTimeDelta :: "filetime \<Rightarrow> filetime \<Rightarrow> real" where
  "clientTimeDelta currT prevT = real (unat (currT - prevT)) / 10000000"

text \<open>
  Lines 619-621: \<^verbatim>\<open>processed\<close> is converted to \<^verbatim>\<open>unsigned long long\<close> (sign-extended) and
  multiplied by \<^verbatim>\<open>OPS_PER_MUL\<close> in 64 bits; the quotient is in Gflop/s.
\<close>

definition gflops :: "int32 \<Rightarrow> real \<Rightarrow> real" where
  "gflops processed delta =
     real (unat ((scast processed :: int64) * OPS_PER_MUL)) / delta / 1000 / 1000 / 1000"

text \<open>
  Lines 601-631, run once both integers of a report have been read from the pipe of
  client \<open>i\<close> at the clock reading \<open>thisTimeSpec\<close>. The comparison
  \<^verbatim>\<open>clientTimeDelta > 0.0\<close> does not depend on rounding: the delta is positive exactly when
  the tick difference is not zero.
\<close>

definition report :: "nat \<Rightarrow> int32 \<Rightarrow> int32 \<Rightarrow> filetime \<Rightarrow> monitor \<Rightarrow> monitor" where
  "report i processed errors thisTimeSpec m =
     (let m1 = m\<lparr>clientErrors := (clientErrors m)[i := clientErrors m ! i + errors]\<rparr>;
          m2 =
            (if processed = - 1
             then m1\<lparr>clientCalcs := (clientCalcs m1)[i := - 1]\<rparr>
             else
               (let delta = clientTimeDelta thisTimeSpec (clientUpdateTime m1 ! i);
                    m3 = m1\<lparr>clientUpdateTime := (clientUpdateTime m1)[i := thisTimeSpec]\<rparr>;
                    m4 =
                      (if delta > 0 \<and> \<not> clientFirstUpdate m3 ! i
                       then m3\<lparr>clientGflops := (clientGflops m3)[i := gflops processed delta]\<rparr>
                       else m3\<lparr>clientGflops := (clientGflops m3)[i := 0],
                               clientFirstUpdate := (clientFirstUpdate m3)[i := False]\<rparr>)
                in m4\<lparr>clientCalcs := (clientCalcs m4)[i := clientCalcs m4 ! i + processed]\<rparr>))
      in m2\<lparr>childReport := True\<rparr>)"

subsection \<open>One pass of the poll loop\<close>

text \<open>
  What the monitor sees when it polls a client's pipe: \<^verbatim>\<open>PeekNamedPipe\<close> fails with an
  error code, or succeeds with a count of available bytes; then come the clock reading
  and the outcomes of the two \<^verbatim>\<open>ReadFile\<close> calls (\<open>ReadOk v\<close> when the call succeeded and
  read four bytes). The second read is attempted only after the first succeeded, and
  neither unless eight bytes are available.
\<close>

datatype read = ReadOk int32 | ReadFailed

datatype peek = PeekOk nat filetime read read | PeekFailed nat

text \<open>The body of the loop over the clients, lines 588-649.\<close>

definition poll_client :: "nat \<Rightarrow> peek \<Rightarrow> monitor \<Rightarrow> monitor" where
  "poll_client i p m =
     (case p of
        PeekOk bytesAvailable thisTimeSpec r1 r2 \<Rightarrow>
          if 8 \<le> bytesAvailable
          then (case r1 of
                  ReadOk processed \<Rightarrow>
                    (case r2 of
                       ReadOk errors \<Rightarrow> report i processed errors thisTimeSpec m
                     | ReadFailed \<Rightarrow> m)
                | ReadFailed \<Rightarrow> m)
          else m
      | PeekFailed err \<Rightarrow>
          if err = ERROR_BROKEN_PIPE
          then (if clientCalcs m ! i \<noteq> - 1
                then m\<lparr>clientCalcs := (clientCalcs m)[i := - 1]\<rparr>
                else m)
          else m)"

definition poll_clients :: "nat \<Rightarrow> peek list \<Rightarrow> monitor \<Rightarrow> monitor" where
  "poll_clients n polls m = fold (\<lambda>i. poll_client i (polls ! i)) [0..<n] m"

text \<open>
  \<^verbatim>\<open>updateTemps\<close>, lines 505-534, by what the line read from the telemetry process is:
  the read failed, a temperature, the \<^verbatim>\<open>N/A\<close> line, or any other line. With no client the
  source fails in \<^verbatim>\<open>at\<close> or divides by zero; the driver never starts the monitor so.
\<close>

datatype temp_line = TempReadFailed | TempValue int32 | TempNA | TempOther

definition updateTemps :: "temp_line \<Rightarrow> monitor \<Rightarrow> monitor" where
  "updateTemps l m =
     (case l of
        TempReadFailed \<Rightarrow> m
      | TempValue tempValue \<Rightarrow>
          m\<lparr>clientTemp := (clientTemp m)[gpuIter m := tempValue],
            gpuIter := (gpuIter m + 1) mod length (clientTemp m)\<rparr>
      | TempNA \<Rightarrow> m\<lparr>gpuIter := (gpuIter m + 1) mod length (clientTemp m)\<rparr>
      | TempOther \<Rightarrow> m)"

text \<open>
  What the monitor prints. A progress line carries the elapsed percentage and the
  vectors it is printed from; the verdict of a device is \<^verbatim>\<open>FAULTY\<close> or \<^verbatim>\<open>OK\<close>.
\<close>

datatype message =
    Progress real "int32 list" "real list" "int32 list" "int32 list"
  | Summary
  | NoClientsAlive
  | TerminatingThreads
  | DoneMsg
  | Tested nat
  | Verdict nat string

text \<open>
  Line 664: \<^verbatim>\<open>fminf((float)(thisTime - startTime) / (float)runTime * 100.0f, 100.0f)\<close>. With
  \<^verbatim>\<open>runTime = 0\<close> the quotient is infinite or not a number; \<^verbatim>\<open>fminf\<close> then gives 100 unless
  the quotient is minus infinity, for which 0 stands here: the value is printed and
  compared with \<open>nextReport\<close>, which is never below 10.
\<close>

definition elapsed_percent :: "int \<Rightarrow> int \<Rightarrow> int \<Rightarrow> real" where
  "elapsed_percent thisTime startTime runTime =
     (if runTime = 0 then (if thisTime - startTime < 0 then 0 else 100)
      else min (real_of_int (thisTime - startTime) / real_of_int runTime * 100) 100)"

text \<open>Lines 692-694 and 705-706.\<close>

definition mark_faulty :: "monitor \<Rightarrow> monitor" where
  "mark_faulty m =
     fold (\<lambda>i m. if clientErrors m ! i \<noteq> 0
                 then m\<lparr>clientFaulty := (clientFaulty m)[i := True]\<rparr>
                 else m)
       [0..<length (clientErrors m)] m"

definition reset_errors :: "monitor \<Rightarrow> monitor" where
  "reset_errors m =
     fold (\<lambda>i m. m\<lparr>clientErrors := (clientErrors m)[i := 0]\<rparr>)
       [0..<length (clientErrors m)] m"

text \<open>Lines 660-708: \<^verbatim>\<open>shouldPrint\<close> is \<^verbatim>\<open>childReport\<close>.\<close>

definition render :: "int \<Rightarrow> int \<Rightarrow> int \<Rightarrow> monitor \<Rightarrow> monitor \<times> message list" where
  "render thisTime startTime runTime m =
     (if childReport m
      then (let elapsed = elapsed_percent thisTime startTime runTime;
                line = Progress elapsed (clientCalcs m) (clientGflops m) (clientErrors m)
                         (clientTemp m);
                m1 = mark_faulty m
            in if nextReport m1 < elapsed
               then (reset_errors (m1\<lparr>nextReport := elapsed + 10\<rparr>), [line, Summary])
               else (m1, [line]))
      else (m, []))"

text \<open>Lines 711-714.\<close>

definition oneAlive :: "monitor \<Rightarrow> bool" where
  "oneAlive m = list_ex (\<lambda>c. c \<noteq> - 1) (clientCalcs m)"

text \<open>
  What one pass reads from its environment: the clock in seconds, the poll of every
  client's pipe, and the telemetry line, if the telemetry pipe exists and has bytes.
\<close>

record pass_input =
  p_thisTime :: int
  p_polls :: "peek list"
  p_temp :: "temp_line option"

text \<open>
  One pass of \<^verbatim>\<open>while (true)\<close>, lines 581-722, for \<open>n\<close> clients: it leaves the loop at the
  deadline (\<open>Break\<close>), ends the process with \<^verbatim>\<open>exit(ENOMEDIUM)\<close> when no client is alive
  (\<open>Exit\<close>), or goes on to the next pass after \<^verbatim>\<open>Sleep(50)\<close> (\<open>Continue\<close>).
\<close>

datatype pass_result = Break | Exit nat | Continue monitor

text \<open>Lines 586-658: the pipes of the clients, then the telemetry pipe.\<close>

definition poll_phase :: "nat \<Rightarrow> pass_input \<Rightarrow> monitor \<Rightarrow> monitor" where
  "poll_phase n inp m =
     (let m1 = poll_clients n (p_polls inp) m
      in case p_temp inp of None \<Rightarrow> m1 | Some l \<Rightarrow> updateTemps l m1)"

definition pass ::
  "nat \<Rightarrow> int \<Rightarrow> int \<Rightarrow> pass_input \<Rightarrow> monitor \<Rightarrow> pass_result \<times> message list" where
  "pass n startTime runTime inp m =
     (if startTime + runTime < p_thisTime inp then (Break, [])
      else
        (let m2 = poll_phase n inp m;
             (m3, out) = render (p_thisTime inp) startTime runTime m2
         in if \<not> oneAlive m3 then (Exit ENOMEDIUM, out @ [NoClientsAlive])
            else (Continue m3, out)))"

text \<open>
  The loop over the passes its environment provides. The loop has no bound of its own:
  \<open>Polling\<close> is the state after the last pass given, with the loop still running.
\<close>

datatype loop_result = Deadline monitor | Aborted nat | Polling monitor

fun monitor_loop ::
  "nat \<Rightarrow> int \<Rightarrow> int \<Rightarrow> pass_input list \<Rightarrow> monitor \<Rightarrow> loop_result \<times> message list" where
  "monitor_loop n startTime runTime [] m = (Polling m, [])"
| "monitor_loop n startTime runTime (inp # rest) m =
     (case pass n startTime runTime inp m of
        (Break, out) \<Rightarrow> (Deadline m, out)
      | (Exit code, out) \<Rightarrow> (Aborted code, out)
      | (Continue m', out) \<Rightarrow>
          (let (r, out') = monitor_loop n startTime runTime rest m' in (r, out @ out')))"

subsection \<open>Shutdown\<close>

text \<open>
  What the monitor does besides polling, in order: printing, writing \<^verbatim>\<open>g_running\<close>,
  sleeping, and the calls that end threads and processes and close handles.
\<close>

datatype handle = TempHandle | TempProcess | ClientHandle nat | ClientThread nat

datatype action =
    Printed message
  | SetRunning bool
  | SleepFor int
  | TerminateThread nat
  | TerminateProcess
  | CloseHandle handle

text \<open>
  Lines 731-738. \<open>threads\<close> gives for each client thread what \<^verbatim>\<open>GetExitCodeThread\<close>
  answers after the sleep: whether the call succeeded, and the exit code.
\<close>

definition terminate_threads :: "(bool \<times> nat) list \<Rightarrow> action list" where
  "terminate_threads threads =
     concat (map (\<lambda>i. if fst (threads ! i) \<and> snd (threads ! i) = STILL_ACTIVE
                       then [TerminateThread i] else [])
               [0..<length threads])"

text \<open>
  Lines 731-755, what follows the sleep: the threads still active are terminated, the
  telemetry process is terminated if it was started (\<open>tempValid\<close>), the handles of the
  \<open>n\<close> clients are closed, and the verdicts are printed.
\<close>

definition reap :: "(bool \<times> nat) list \<Rightarrow> bool \<Rightarrow> nat \<Rightarrow> monitor \<Rightarrow> action list" where
  "reap threads tempValid n m =
     terminate_threads threads
     @ (if tempValid
        then [TerminateProcess, CloseHandle TempHandle, CloseHandle TempProcess]
        else [])
     @ concat (map (\<lambda>i. [CloseHandle (ClientHandle i), CloseHandle (ClientThread i)]) [0..<n])
     @ [Printed DoneMsg, Printed (Tested (length threads))]
     @ map (\<lambda>i. Printed (Verdict i (if clientFaulty m ! i then ''FAULTY'' else ''OK'')))
         [0..<length threads]"

text \<open>
  Lines 724-755, run once the loop is left at the deadline: the flag is cleared, the
  monitor sleeps for \<open>grace\<close> (\<^verbatim>\<open>sigterm_timeout_threshold_secs\<close>), then reaps.
\<close>

definition shutdown ::
  "int \<Rightarrow> (bool \<times> nat) list \<Rightarrow> bool \<Rightarrow> nat \<Rightarrow> monitor \<Rightarrow> action list" where
  "shutdown grace threads tempValid n m =
     [Printed TerminatingThreads, SetRunning False, SleepFor grace]
     @ reap threads tempValid n m"

text \<open>
  \<^verbatim>\<open>listenClients\<close> as a whole: the initial state, the loop, and the shutdown when the
  loop is left at the deadline. \<open>Exited\<close> is the process ending inside the loop.
\<close>

datatype run = Finished "action list" | Exited nat "action list" | StillPolling "action list"

definition listenClients ::
  "filetime list \<Rightarrow> (bool \<times> nat) list \<Rightarrow> bool \<Rightarrow> int \<Rightarrow> int \<Rightarrow> int \<Rightarrow> pass_input list \<Rightarrow> run"
  where
  "listenClients stamps threads tempValid startTime runTime grace passes =
     (case monitor_loop (length stamps) startTime runTime passes (init_monitor stamps) of
        (Deadline m, out) \<Rightarrow>
          Finished (map Printed out @ shutdown grace threads tempValid (length stamps) m)
      | (Aborted code, out) \<Rightarrow> Exited code (map Printed out)
      | (Polling m, out) \<Rightarrow> StillPolling (map Printed out))"

text \<open>
  The writes to \<^verbatim>\<open>g_running\<close> as steps of the threads that make them: a worker running
  its constructor (line 159 is its last statement), the signal handler (line 173), and
  the monitor at line 726, the \<open>SetRunning False\<close> of its shutdown. A worker reading the
  flag (\<^verbatim>\<open>shouldRun\<close>, line 301) leaves it as it is.
\<close>

datatype step =
    WorkerCtor cuda GPU_Test int32 bool bool
  | WorkerShouldRun
  | TermHandler
  | MonitorCancel



subsection \<open>Values used to state the properties\<close>

text \<open>
  The monitor consuming, for client \<open>i\<close>, a sequence of reports: each is the pair of
  integers read and the clock reading at which it was read.
\<close>

definition reports :: "nat \<Rightarrow> (int32 \<times> int32 \<times> filetime) list \<Rightarrow> monitor \<Rightarrow> monitor" where
  "reports i msgs m =
     fold (\<lambda>(processed, errors, thisTimeSpec). report i processed errors thisTimeSpec) msgs m"

text \<open>Every vector of the monitor has one entry per client.\<close>

definition wf_monitor :: "nat \<Rightarrow> monitor \<Rightarrow> bool" where
  "wf_monitor n m =
     (length (clientTemp m) = n \<and> length (clientErrors m) = n \<and> length (clientCalcs m) = n
      \<and> length (clientUpdateTime m) = n \<and> length (clientGflops m) = n
      \<and> length (clientFaulty m) = n \<and> length (clientFirstUpdate m) = n)"

text \<open>A poll that makes the monitor consume a report: eight bytes and two good reads.\<close>

definition delivers_report :: "peek \<Rightarrow> bool" where
  "delivers_report p =
     (case p of
        PeekOk bytesAvailable thisTimeSpec (ReadOk processed) (ReadOk errors) \<Rightarrow>
          8 \<le> bytesAvailable
      | _ \<Rightarrow> False)"


text \<open>
  The time an action waits for: a sleep for its duration (\<^verbatim>\<open>sleep_for\<close> returns at once
  for a negative one), every other action for none.
\<close>

definition waits :: "action \<Rightarrow> int" where
  "waits a = (case a of SleepFor secs \<Rightarrow> max 0 secs | _ \<Rightarrow> 0)"



text \<open>
  Example inputs: a device on which every driver call succeeds, with 8 GiB of 12 GiB
  free, and the memory of a \<^verbatim>\<open>GPU_Test<float>\<close> before construction.
\<close>

definition example_cuda :: cuda where
  "example_cuda =
     \<lparr>cuDeviceGet = True, cuCtxCreate = True, cuCtxSetCurrent = True, cublasCreate = True,
      cublasSetMathMode = True, cuMemAllocHost = True,
      cuMemGetInfo = Some (8589934592, 12884901888), cuMemAlloc = (\<lambda>_. True),
      cuMemcpyHtoD = True, initCompareKernel = None\<rparr>"

definition example_raw :: GPU_Test where
  "example_raw =
     \<lparr>d_devNumber = 0, d_doubles = False, d_tensors = False, d_iters = 0, d_error = 0,
      d_faultyElemsHost = 0\<rparr>"

text \<open>
  Example passes without telemetry: one with given polls of the clients' pipes and, for
  a monitor with one client, one in which nothing is available on the pipe and one in
  which a report is read.
\<close>

definition example_pass :: "int \<Rightarrow> peek list \<Rightarrow> pass_input" where
  "example_pass t polls = \<lparr>p_thisTime = t, p_polls = polls, p_temp = None\<rparr>"

definition quiet_pass :: "int \<Rightarrow> pass_input" where
  "quiet_pass t =
     \<lparr>p_thisTime = t, p_polls = [PeekOk 0 0 ReadFailed ReadFailed], p_temp = None\<rparr>"

definition report_pass :: "int \<Rightarrow> int32 \<Rightarrow> int32 \<Rightarrow> filetime \<Rightarrow> pass_input" where
  "report_pass t processed errors stamp =
     \<lparr>p_thisTime = t, p_polls = [PeekOk 8 stamp (ReadOk processed) (ReadOk errors)],
      p_temp = None\<rparr>"

section \<open>Properties\<close>

subsection \<open>The worker's error accumulator\<close>

lemma sint_scast_int32: "sint (scast (x :: int32) :: int64) = sint x"
  by (rule sint_up_scast) (simp add: is_up)

lemma scast_int32_eq_0: "((scast (x :: int32) :: int64) = 0) = (x = 0)"
proof
  assume "(scast x :: int64) = 0"
  then have "sint (scast x :: int64) = 0"
    by simp
  then have "sint x = sint (0 :: int32)"
    by (simp add: sint_scast_int32)
  then show "x = 0"
    by (rule signed_word_eqI)
qed simp

lemma getErrors_value:
  "fst (getErrors g) = d_error g + scast (d_faultyElemsHost g)"
  by (simp add: getErrors_def Let_def)

lemma getErrors_state:
  "snd (getErrors g) = g\<lparr>d_error := 0\<rparr>"
  by (simp add: getErrors_def Let_def)

text \<open>
  C10 (as stated, refuted). The claim says that a second \<^verbatim>\<open>getErrors()\<close> with no compare
  step in between always returns 0. With five faulty elements pending in the host counter
  the first call returns 5 and so does the second: the accumulator is cleared, the host
  counter is not.
\<close>

theorem getErrors_second_call_counterexample:
  "fst (getErrors (snd (getErrors
      \<lparr>d_devNumber = 0, d_doubles = False, d_tensors = False, d_iters = 1,
       d_error = 0, d_faultyElemsHost = 5\<rparr>))) = 5"
  by (simp add: getErrors_def Let_def)

text \<open>
  C10 (amended). A call to \<^verbatim>\<open>getErrors()\<close> returns the accumulated total plus the pending
  host counter and leaves the accumulator at zero, every other field unchanged; a second
  call with no compare step in between returns the pending host counter again, which is
  0 exactly when no faulty element is pending.
\<close>

theorem getErrors_read_and_clear:
  "fst (getErrors g) = d_error g + scast (d_faultyElemsHost g)
   \<and> snd (getErrors g) = g\<lparr>d_error := 0\<rparr>
   \<and> fst (getErrors (snd (getErrors g))) = scast (d_faultyElemsHost g)
   \<and> (fst (getErrors (snd (getErrors g))) = 0) = (d_faultyElemsHost g = 0)"
proof -
  have second: "fst (getErrors (snd (getErrors g))) = scast (d_faultyElemsHost g)"
    by (simp add: getErrors_value getErrors_state)
  have zero: "((scast (d_faultyElemsHost g) :: int64) = 0) = (d_faultyElemsHost g = 0)"
    by (rule scast_int32_eq_0)
  show ?thesis
    using second zero by (simp add: getErrors_value getErrors_state)
qed



subsection \<open>Buffer initialisation\<close>

lemma d_resultSize_values:
  "d_resultSize True = 536870912" "d_resultSize False = 268435456"
  by (simp_all add: d_resultSize_def sizeof_T_def MATRIX_SIZE_def)

lemma iters_ge_1_float:
  assumes "\<not> u < 3 * (268435456 :: int64)"
  shows "1 \<le> (u - 2 * 268435456) div 268435456"
proof -
  have le: "(805306368 :: int64) \<le> u"
    using assms by (simp add: not_less)
  then have le2: "(536870912 :: int64) \<le> u"
    by (simp add: word_le_nat_alt)
  have "unat (u - 536870912) = unat u - 536870912"
    using le2 by (simp add: unat_sub)
  moreover have "805306368 \<le> unat u"
    using le by (simp add: word_le_nat_alt)
  ultimately have "1 \<le> unat (u - 536870912) div 268435456"
    by (simp add: Suc_le_eq div_greater_zero_iff)
  then show ?thesis
    by (simp add: word_le_nat_alt unat_div)
qed

lemma iters_ge_1_double:
  assumes "\<not> u < 3 * (536870912 :: int64)"
  shows "1 \<le> (u - 2 * 536870912) div 536870912"
proof -
  have le: "(1610612736 :: int64) \<le> u"
    using assms by (simp add: not_less)
  then have le2: "(1073741824 :: int64) \<le> u"
    by (simp add: word_le_nat_alt)
  have "unat (u - 1073741824) = unat u - 1073741824"
    using le2 by (simp add: unat_sub)
  moreover have "1610612736 \<le> unat u"
    using le by (simp add: word_le_nat_alt)
  ultimately have "1 \<le> unat (u - 1073741824) div 536870912"
    by (simp add: Suc_le_eq div_greater_zero_iff)
  then show ?thesis
    by (simp add: word_le_nat_alt unat_div)
qed

lemma iters_ge_1:
  "\<not> u < 3 * d_resultSize dbl \<Longrightarrow> 1 \<le> (u - 2 * d_resultSize dbl) div d_resultSize dbl"
  using iters_ge_1_float [of u] iters_ge_1_double [of u]
  by (cases dbl) (simp_all add: d_resultSize_values)


lemma bind_ok: "cuCtxSetCurrent c \<Longrightarrow> bind c = Inr ()"
  by (simp add: bind_def checkError_def)
lemma availMemory_ok:
  "cuCtxSetCurrent c \<Longrightarrow> cuMemGetInfo c = Some (freeMem, totalMem) \<Longrightarrow> availMemory c = Inr freeMem"
  by (simp add: availMemory_def bind_def checkError_def bindE_def)

lemma totalMemory_ok:
  "cuCtxSetCurrent c \<Longrightarrow> cuMemGetInfo c = Some (freeMem, totalMem) \<Longrightarrow> totalMemory c = Inr totalMem"
  by (simp add: totalMemory_def bind_def checkError_def bindE_def)

lemma initBuffers_unfold:
  assumes "cuCtxSetCurrent c" and "cuMemGetInfo c = Some (freeMem, totalMem)"
    and "resolveUseBytes c useBytes0 = Inr useBytes"
  shows "initBuffers c useBytes0 g =
     (let resultSize = d_resultSize (d_doubles g);
           g1 = g\<lparr>d_iters := (useBytes - 2 * resultSize) div resultSize\<rparr>
       in if useBytes < 3 * resultSize then Inl LowMem
          else
            bindE (checkError (cuMemAlloc c (d_iters g1 * resultSize)) ''C alloc'') (\<lambda>_.
            bindE (checkError (cuMemAlloc c resultSize) ''A alloc'') (\<lambda>_.
            bindE (checkError (cuMemAlloc c resultSize) ''B alloc'') (\<lambda>_.
            bindE (checkError (cuMemAlloc c 4) ''faulty data'') (\<lambda>_.
            bindE (checkError (cuMemcpyHtoD c) ''A -> device'') (\<lambda>_.
            bindE (checkError (cuMemcpyHtoD c) ''B -> device'') (\<lambda>_.
              case initCompareKernel c of
                Some desc \<Rightarrow> Inl (CudaError desc)
              | None \<Rightarrow> Inr g1)))))))"
  using bind_ok [OF assms(1)] availMemory_ok [OF assms(1,2)] totalMemory_ok [OF assms(1,2)] assms(3)
  by (simp add: initBuffers_def bindE_def)

lemma initBuffers_LowMem_iff:
  assumes "cuCtxSetCurrent c" and "cuMemGetInfo c = Some (freeMem, totalMem)"
    and "resolveUseBytes c useBytes0 = Inr useBytes"
  shows "(initBuffers c useBytes0 g = Inl LowMem) = (useBytes < 3 * d_resultSize (d_doubles g))"
  unfolding initBuffers_unfold [OF assms]
  by (simp add: Let_def bindE_def checkError_def split: option.split)

lemma initBuffers_success:
  assumes "cuCtxSetCurrent c" and "cuMemGetInfo c = Some (freeMem, totalMem)"
    and "resolveUseBytes c useBytes0 = Inr useBytes"
    and "\<not> useBytes < 3 * d_resultSize (d_doubles g)"
    and "\<forall>n. cuMemAlloc c n" and "cuMemcpyHtoD c" and "initCompareKernel c = None"
  shows "initBuffers c useBytes0 g =
     Inr (g\<lparr>d_iters := (useBytes - 2 * d_resultSize (d_doubles g)) div d_resultSize (d_doubles g)\<rparr>)"
  unfolding initBuffers_unfold [OF assms(1-3)]
  using assms(4-7) by (simp add: Let_def bindE_def checkError_def)


subsection \<open>Decimal strings\<close>




















text \<open>
  C8. With the context bound and the memory query answering, \<^verbatim>\<open>initBuffers\<close> throws its
  low-memory error exactly when the byte count it settled on, read as \<^verbatim>\<open>size_t\<close>, is below
  three result buffers (the inputs A and B and one output). Otherwise the iteration count
  is at least one, and the function returns the object with that count once the
  allocations, the two copies and the compare kernel succeed; any other failure is a
  driver error, never the low-memory one.
\<close>

theorem initBuffers_low_memory:
  assumes "cuCtxSetCurrent c" and "cuMemGetInfo c = Some (freeMem, totalMem)"
    and "resolveUseBytes c useBytes0 = Inr useBytes"
  shows "(initBuffers c useBytes0 g = Inl LowMem) = (useBytes < 3 * d_resultSize (d_doubles g))
    \<and> (\<not> useBytes < 3 * d_resultSize (d_doubles g) \<longrightarrow>
         1 \<le> (useBytes - 2 * d_resultSize (d_doubles g)) div d_resultSize (d_doubles g)
         \<and> ((\<forall>n. cuMemAlloc c n) \<and> cuMemcpyHtoD c \<and> initCompareKernel c = None \<longrightarrow>
              initBuffers c useBytes0 g =
                Inr (g\<lparr>d_iters := (useBytes - 2 * d_resultSize (d_doubles g))
                                     div d_resultSize (d_doubles g)\<rparr>)))"
  using initBuffers_LowMem_iff [OF assms] initBuffers_success [OF assms] iters_ge_1
  by blast

text \<open>
  A device with 8 GiB free, floats. With the default memory selection 7730941132 bytes
  are used, which is 26 output buffers after A and B; with 100 MiB asked for, less than
  three buffers of 256 MiB, the low-memory error is thrown.
\<close>

lemma example_resolve: "resolveUseBytes example_cuda 0 = Inr 7730941132"
  by (simp add: resolveUseBytes_def availMemory_def bind_def checkError_def bindE_def
      example_cuda_def scale_mem_def to_ssize_t_def USEMEM_def)

theorem initBuffers_low_memory_witness:
  "initBuffers example_cuda 0 example_raw \<noteq> Inl LowMem
   \<and> initBuffers example_cuda 0 example_raw = Inr (example_raw\<lparr>d_iters := 26\<rparr>)
   \<and> initBuffers example_cuda 104857600 example_raw = Inl LowMem"
proof -
  have ctx: "cuCtxSetCurrent example_cuda"
    by (simp add: example_cuda_def)
  have info: "cuMemGetInfo example_cuda = Some (8589934592, 12884901888)"
    by (simp add: example_cuda_def)
  have rs: "d_resultSize (d_doubles example_raw) = 268435456"
    by (simp add: example_raw_def d_resultSize_values)
  have big: "\<not> (7730941132 :: int64) < 3 * 268435456"
    by simp
  have small: "(104857600 :: int64) < 3 * 268435456"
    by simp
  have iters: "((7730941132 :: int64) - 2 * 268435456) div 268435456 = 26"
    by (simp add: word_div_def)
  have ok: "(\<forall>n. cuMemAlloc example_cuda n) \<and> cuMemcpyHtoD example_cuda
      \<and> initCompareKernel example_cuda = None"
    by (simp add: example_cuda_def)
  have abs: "resolveUseBytes example_cuda 104857600 = Inr 104857600"
    by (simp add: resolveUseBytes_def bindE_def)
  show ?thesis
    using initBuffers_low_memory [OF ctx info example_resolve, of example_raw]
      initBuffers_low_memory [OF ctx info abs, of example_raw] big small ok
    unfolding rs iters by auto
qed

subsection \<open>Memory selection\<close>




subsection \<open>Consuming reports\<close>

lemma report_clientCalcs:
  "clientCalcs (report i p e t m) =
     (clientCalcs m)[i := (if p = - 1 then - 1 else clientCalcs m ! i + p)]"
  by (simp add: report_def Let_def)

lemma report_clientErrors:
  "clientErrors (report i p e t m) = (clientErrors m)[i := clientErrors m ! i + e]"
  by (simp add: report_def Let_def)

lemma report_clientUpdateTime:
  "clientUpdateTime (report i p e t m) =
     (if p = - 1 then clientUpdateTime m else (clientUpdateTime m)[i := t])"
  by (simp add: report_def Let_def)

lemma report_clientGflops_sentinel:
  "clientGflops (report i (- 1) e t m) = clientGflops m"
  by (simp add: report_def Let_def)

lemma report_clientFirstUpdate:
  "clientFirstUpdate (report i p e t m) =
     (if p = - 1 \<or> (0 < clientTimeDelta t (clientUpdateTime m ! i) \<and> \<not> clientFirstUpdate m ! i)
      then clientFirstUpdate m else (clientFirstUpdate m)[i := False])"
  by (simp add: report_def Let_def)

lemma report_frame:
  "clientFaulty (report i p e t m) = clientFaulty m"
  "clientTemp (report i p e t m) = clientTemp m"
  "nextReport (report i p e t m) = nextReport m"
  "gpuIter (report i p e t m) = gpuIter m"
  "childReport (report i p e t m)"
  by (simp_all add: report_def Let_def)



lemma report_length:
  "length (clientCalcs (report i p e t m)) = length (clientCalcs m)"
  "length (clientErrors (report i p e t m)) = length (clientErrors m)"
  "length (clientUpdateTime (report i p e t m)) = length (clientUpdateTime m)"
  "length (clientGflops (report i p e t m)) = length (clientGflops m)"
  "length (clientFirstUpdate (report i p e t m)) = length (clientFirstUpdate m)"
  by (simp_all add: report_def Let_def)

lemma reports_Nil: "reports i [] m = m"
  by (simp add: reports_def)

lemma reports_Cons: "reports i ((p, e, t) # msgs) m = reports i msgs (report i p e t m)"
  by (simp add: reports_def)

lemma reports_clientCalcs:
  assumes "i < length (clientCalcs m)" and "\<forall>x \<in> set msgs. fst x \<noteq> - 1"
  shows "clientCalcs (reports i msgs m) ! i = clientCalcs m ! i + sum_list (map fst msgs)"
  using assms
proof (induction msgs arbitrary: m)
  case Nil
  then show ?case by (simp add: reports_Nil)
next
  case (Cons x msgs)
  obtain p e t where x: "x = (p, e, t)"
    by (cases x) auto
  have p: "p \<noteq> - 1"
    using Cons.prems(2) x by simp
  have len: "i < length (clientCalcs (report i p e t m))"
    using Cons.prems(1) by (simp add: report_length)
  have rest: "\<forall>x \<in> set msgs. fst x \<noteq> - 1"
    using Cons.prems(2) by simp
  have "clientCalcs (reports i msgs (report i p e t m)) ! i
      = clientCalcs (report i p e t m) ! i + sum_list (map fst msgs)"
    using len rest by (rule Cons.IH)
  also have "clientCalcs (report i p e t m) ! i = clientCalcs m ! i + p"
    using Cons.prems(1) p by (simp add: report_clientCalcs)
  finally show ?case
    by (simp add: x reports_Cons add.assoc)
qed

lemma init_monitor_fresh:
  "i < length stamps \<Longrightarrow> clientCalcs (init_monitor stamps) ! i = 0"
  "i < length stamps \<Longrightarrow> clientErrors (init_monitor stamps) ! i = 0"
  "length (clientCalcs (init_monitor stamps)) = length stamps"
  by (simp_all add: init_monitor_def)

lemma report_wf: "wf_monitor n m \<Longrightarrow> wf_monitor n (report i p e t m)"
  by (simp add: wf_monitor_def report_def Let_def)

lemma wf_monitor_update:
  "wf_monitor n (m\<lparr>clientCalcs := (clientCalcs m)[i := v]\<rparr>) = wf_monitor n m"
  "wf_monitor n (m\<lparr>nextReport := x\<rparr>) = wf_monitor n m"
  by (simp_all add: wf_monitor_def)

lemma poll_client_wf: "wf_monitor n m \<Longrightarrow> wf_monitor n (poll_client i p m)"
  by (simp add: poll_client_def report_wf wf_monitor_update split: peek.split read.split)

lemma poll_client_clientFaulty: "clientFaulty (poll_client i p m) = clientFaulty m"
  by (simp add: poll_client_def report_frame split: peek.split read.split)

lemma poll_client_childReport:
  "childReport (poll_client i p m) = (childReport m \<or> delivers_report p)"
  by (auto simp: poll_client_def delivers_report_def report_frame split: peek.split read.split)

lemma poll_client_dead:
  assumes "\<forall>c \<in> set (clientCalcs m). c = - 1" and "\<not> delivers_report p"
  shows "clientCalcs (poll_client i p m) = clientCalcs m"
proof (cases "i < length (clientCalcs m)")
  case True
  then have "clientCalcs m ! i = - 1"
    using assms(1) by simp
  then show ?thesis
    using assms(2)
    by (auto simp: poll_client_def delivers_report_def split: peek.split read.split)
next
  case False
  then show ?thesis
    using assms(2)
    by (auto simp: poll_client_def delivers_report_def list_update_beyond not_less
        split: peek.split read.split)
qed

lemma fold_poll_wf:
  "wf_monitor n m \<Longrightarrow> wf_monitor n (fold (\<lambda>i. poll_client i (polls ! i)) js m)"
  by (induction js arbitrary: m) (simp_all add: poll_client_wf)

lemma fold_poll_clientFaulty:
  "clientFaulty (fold (\<lambda>i. poll_client i (polls ! i)) js m) = clientFaulty m"
  by (induction js arbitrary: m) (simp_all add: poll_client_clientFaulty)

lemma fold_poll_dead:
  assumes "\<forall>c \<in> set (clientCalcs m). c = - 1" and "\<forall>i \<in> set js. \<not> delivers_report (polls ! i)"
  shows "clientCalcs (fold (\<lambda>i. poll_client i (polls ! i)) js m) = clientCalcs m"
  using assms
proof (induction js arbitrary: m)
  case Nil
  then show ?case by simp
next
  case (Cons j js)
  have step: "clientCalcs (poll_client j (polls ! j) m) = clientCalcs m"
    using Cons.prems by (intro poll_client_dead) simp_all
  have "clientCalcs (fold (\<lambda>i. poll_client i (polls ! i)) js (poll_client j (polls ! j) m))
      = clientCalcs (poll_client j (polls ! j) m)"
    using Cons.prems step by (intro Cons.IH) simp_all
  then show ?case
    using step by simp
qed

lemma poll_clients_wf: "wf_monitor n m \<Longrightarrow> wf_monitor n (poll_clients n polls m)"
  by (simp add: poll_clients_def fold_poll_wf)

lemma poll_clients_clientFaulty: "clientFaulty (poll_clients n polls m) = clientFaulty m"
  by (simp add: poll_clients_def fold_poll_clientFaulty)

lemma poll_clients_dead:
  assumes "\<forall>c \<in> set (clientCalcs m). c = - 1" and "\<forall>i < n. \<not> delivers_report (polls ! i)"
  shows "clientCalcs (poll_clients n polls m) = clientCalcs m"
  unfolding poll_clients_def using assms by (intro fold_poll_dead) simp_all

lemma updateTemps_frame:
  "clientFaulty (updateTemps l m) = clientFaulty m"
  "clientErrors (updateTemps l m) = clientErrors m"
  "clientCalcs (updateTemps l m) = clientCalcs m"
  "childReport (updateTemps l m) = childReport m"
  "nextReport (updateTemps l m) = nextReport m"
  by (simp_all add: updateTemps_def split: temp_line.split)

lemma updateTemps_wf: "wf_monitor n m \<Longrightarrow> wf_monitor n (updateTemps l m)"
  by (simp add: wf_monitor_def updateTemps_def split: temp_line.split)

lemma fold_mark_frame:
  "clientErrors (fold (\<lambda>i m. if clientErrors m ! i \<noteq> 0
                 then m\<lparr>clientFaulty := (clientFaulty m)[i := True]\<rparr> else m) js m) = clientErrors m"
  "clientCalcs (fold (\<lambda>i m. if clientErrors m ! i \<noteq> 0
                 then m\<lparr>clientFaulty := (clientFaulty m)[i := True]\<rparr> else m) js m) = clientCalcs m"
  "length (clientFaulty (fold (\<lambda>i m. if clientErrors m ! i \<noteq> 0
                 then m\<lparr>clientFaulty := (clientFaulty m)[i := True]\<rparr> else m) js m))
     = length (clientFaulty m)"
  by (induction js arbitrary: m) simp_all

lemma fold_mark_nth:
  assumes "i < length (clientFaulty m)"
  shows "clientFaulty (fold (\<lambda>i m. if clientErrors m ! i \<noteq> 0
                 then m\<lparr>clientFaulty := (clientFaulty m)[i := True]\<rparr> else m) js m) ! i
     = (clientFaulty m ! i \<or> (i \<in> set js \<and> clientErrors m ! i \<noteq> 0))"
  using assms
proof (induction js arbitrary: m)
  case Nil
  then show ?case by simp
next
  case (Cons j js)
  then show ?case
    by (cases "i = j") (auto simp: nth_list_update)
qed

lemma mark_faulty_nth:
  assumes "i < length (clientFaulty m)" and "length (clientErrors m) = length (clientFaulty m)"
  shows "clientFaulty (mark_faulty m) ! i = (clientFaulty m ! i \<or> clientErrors m ! i \<noteq> 0)"
  unfolding mark_faulty_def using assms by (simp add: fold_mark_nth)

lemma mark_faulty_frame:
  "clientErrors (mark_faulty m) = clientErrors m"
  "clientCalcs (mark_faulty m) = clientCalcs m"
  "length (clientFaulty (mark_faulty m)) = length (clientFaulty m)"
  unfolding mark_faulty_def by (simp_all add: fold_mark_frame)

lemma mark_faulty_rest:
  "clientTemp (mark_faulty m) = clientTemp m \<and> clientUpdateTime (mark_faulty m) = clientUpdateTime m
   \<and> clientGflops (mark_faulty m) = clientGflops m
   \<and> clientFirstUpdate (mark_faulty m) = clientFirstUpdate m
   \<and> nextReport (mark_faulty m) = nextReport m \<and> childReport (mark_faulty m) = childReport m"
proof -
  have "clientTemp (fold f js m) = clientTemp m \<and> clientUpdateTime (fold f js m) = clientUpdateTime m
   \<and> clientGflops (fold f js m) = clientGflops m
   \<and> clientFirstUpdate (fold f js m) = clientFirstUpdate m
   \<and> nextReport (fold f js m) = nextReport m \<and> childReport (fold f js m) = childReport m"
    if "f = (\<lambda>i m. if clientErrors m ! i \<noteq> 0
                 then m\<lparr>clientFaulty := (clientFaulty m)[i := True]\<rparr> else m)" for f js
    unfolding that by (induction js arbitrary: m) simp_all
  then show ?thesis
    by (simp add: mark_faulty_def)
qed

lemma mark_faulty_wf: "wf_monitor n m \<Longrightarrow> wf_monitor n (mark_faulty m)"
  by (simp add: wf_monitor_def mark_faulty_frame mark_faulty_rest)

lemma reset_errors_fold:
  "clientFaulty (fold (\<lambda>i m. m\<lparr>clientErrors := (clientErrors m)[i := 0]\<rparr>) js m) = clientFaulty m
   \<and> clientCalcs (fold (\<lambda>i m. m\<lparr>clientErrors := (clientErrors m)[i := 0]\<rparr>) js m) = clientCalcs m
   \<and> clientTemp (fold (\<lambda>i m. m\<lparr>clientErrors := (clientErrors m)[i := 0]\<rparr>) js m) = clientTemp m
   \<and> clientUpdateTime (fold (\<lambda>i m. m\<lparr>clientErrors := (clientErrors m)[i := 0]\<rparr>) js m)
       = clientUpdateTime m
   \<and> clientGflops (fold (\<lambda>i m. m\<lparr>clientErrors := (clientErrors m)[i := 0]\<rparr>) js m) = clientGflops m
   \<and> clientFirstUpdate (fold (\<lambda>i m. m\<lparr>clientErrors := (clientErrors m)[i := 0]\<rparr>) js m)
       = clientFirstUpdate m
   \<and> length (clientErrors (fold (\<lambda>i m. m\<lparr>clientErrors := (clientErrors m)[i := 0]\<rparr>) js m))
       = length (clientErrors m)"
  by (induction js arbitrary: m) simp_all

lemma reset_errors_frame:
  "clientFaulty (reset_errors m) = clientFaulty m"
  "clientCalcs (reset_errors m) = clientCalcs m"
  "wf_monitor n (reset_errors m) = wf_monitor n m"
  unfolding reset_errors_def wf_monitor_def by (simp_all add: reset_errors_fold)

lemma render_clientFaulty:
  "clientFaulty (fst (render thisTime startTime runTime m))
     = (if childReport m then clientFaulty (mark_faulty m) else clientFaulty m)"
  by (simp add: render_def Let_def reset_errors_frame)

lemma render_clientCalcs:
  "clientCalcs (fst (render thisTime startTime runTime m)) = clientCalcs m"
  by (simp add: render_def Let_def reset_errors_frame mark_faulty_frame)

lemma render_wf:
  "wf_monitor n m \<Longrightarrow> wf_monitor n (fst (render thisTime startTime runTime m))"
  by (simp add: render_def Let_def reset_errors_frame mark_faulty_wf wf_monitor_update)

lemma render_progress:
  "(Progress el c g errs tmp \<in> set (snd (render thisTime startTime runTime m)))
     = (childReport m \<and> el = elapsed_percent thisTime startTime runTime \<and> c = clientCalcs m
        \<and> g = clientGflops m \<and> errs = clientErrors m \<and> tmp = clientTemp m)"
  by (auto simp: render_def Let_def)

lemmas eval_defs = example_pass_def quiet_pass_def report_pass_def pass_def poll_phase_def poll_clients_def
  poll_client_def report_def render_def mark_faulty_def reset_errors_def oneAlive_def
  init_monitor_def elapsed_percent_def clientTimeDelta_def gflops_def OPS_PER_MUL_def
  ENOMEDIUM_def ERROR_BROKEN_PIPE_def Let_def

subsection \<open>Cumulative iterations and the sentinel\<close>

text \<open>
  C1 (as stated, refuted). A fresh state consumes the report \<open>(100, 0)\<close> and then the
  sentinel \<open>(-1, -1)\<close>. The sum of the non-sentinel iteration counts is 100, but the
  count kept for the client is \<open>-1\<close>: the sentinel overwrites it, the same entry being the
  liveness mark. The error counter, 0 before the sentinel, is \<open>-1\<close> after it: line 601
  adds the second integer of every report before the first is looked at.
\<close>

theorem cumulative_iterations_counterexample:
  "clientCalcs (reports 0 [(100, 0, 10), (- 1, - 1, 20)] (init_monitor [0])) ! 0 = - 1
   \<and> sum_list (map fst [(100 :: int32, 0 :: int32, 10 :: filetime)]) = 100
   \<and> clientCalcs (reports 0 [(100, 0, 10)] (init_monitor [0])) ! 0 = 100
   \<and> clientErrors (reports 0 [(100, 0, 10)] (init_monitor [0])) ! 0 = 0
   \<and> clientErrors (reports 0 [(100, 0, 10), (- 1, - 1, 20)] (init_monitor [0])) ! 0 = - 1"
  by (simp add: reports_def report_def Let_def init_monitor_def)

text \<open>
  C1 (amended). For every sequence of reports without a sentinel consumed from a fresh
  state, the count kept for the client is the sum of their iteration counts (in 32-bit
  arithmetic). A sentinel, whatever its second integer, sets the count to the dead marker
  \<open>-1\<close> at once, replacing the sum, and leaves throughput and timestamp as they
  were. Nothing is said of the error counter.
\<close>

theorem cumulative_iterations:
  assumes "i < length stamps" and "\<forall>x \<in> set msgs. fst x \<noteq> - 1"
  shows "clientCalcs (reports i msgs (init_monitor stamps)) ! i = sum_list (map fst msgs)
    \<and> clientCalcs (report i (- 1) e t (reports i msgs (init_monitor stamps))) ! i = - 1
    \<and> clientGflops (report i (- 1) e t (reports i msgs (init_monitor stamps)))
        = clientGflops (reports i msgs (init_monitor stamps))
    \<and> clientUpdateTime (report i (- 1) e t (reports i msgs (init_monitor stamps)))
        = clientUpdateTime (reports i msgs (init_monitor stamps))"
proof -
  have len: "i < length (clientCalcs (init_monitor stamps))"
    using assms(1) by (simp add: init_monitor_fresh)
  have sum: "clientCalcs (reports i msgs (init_monitor stamps)) ! i = sum_list (map fst msgs)"
    using reports_clientCalcs [OF len assms(2)] assms(1) by (simp add: init_monitor_fresh)
  have "length (clientCalcs (reports i msgs m)) = length (clientCalcs m)" for m
    by (induction msgs arbitrary: m) (auto simp: reports_Nil reports_Cons report_length)
  then have "i < length (clientCalcs (reports i msgs (init_monitor stamps)))"
    using len by simp
  then show ?thesis
    using sum by (simp add: report_clientCalcs report_clientGflops_sentinel report_clientUpdateTime)
qed

text \<open>
  The theorem at the reports \<open>(100, 0)\<close> and \<open>(100, 5)\<close>, followed by a sentinel.
\<close>

theorem cumulative_iterations_witness:
  "clientCalcs (reports 0 [(100, 0, 10), (100, 5, 20)] (init_monitor [0])) ! 0 = 200
   \<and> clientCalcs (report 0 (- 1) (- 1) 30
        (reports 0 [(100, 0, 10), (100, 5, 20)] (init_monitor [0]))) ! 0 = - 1"
  using cumulative_iterations [of 0 "[0]" "[(100, 0, 10), (100, 5, 20)]" "- 1" 30]
  by simp

subsection \<open>Throughput\<close>

text \<open>
  C5 (the code departs from the claim). The clock read at line 593 is the system time
  and can be set back. A client reports at tick 20000000 and again at tick 10000000: it
  is not the first report and \<open>t - t0\<close> is negative, so the claim leaves the throughput
  at 0. The code subtracts the tick counts as unsigned 64-bit numbers (line 611), the
  difference wraps to a huge delta, the test for a valid time delta
  (\<^verbatim>\<open>clientTimeDelta > 0.0\<close>, lines 616-617) lets it pass, and a positive throughput is
  stored.
\<close>

theorem throughput_clock_set_back:
  "\<not> clientFirstUpdate (report 0 1000 0 20000000 (init_monitor [0])) ! 0
   \<and> clientUpdateTime (report 0 1000 0 20000000 (init_monitor [0])) ! 0 = 20000000
   \<and> int (unat (10000000 :: filetime)) - int (unat (20000000 :: filetime)) \<le> 0
   \<and> 0 < clientGflops (report 0 1000 0 10000000 (report 0 1000 0 20000000 (init_monitor [0]))) ! 0"
  by (simp add: report_def Let_def init_monitor_def clientTimeDelta_def gflops_def OPS_PER_MUL_def)

lemma unat_scast_nonneg:
  assumes "0 \<le> sint (p :: int32)"
  shows "unat (scast p :: int64) = nat (sint p)"
proof -
  have lt: "sint p < 2 ^ 31"
    using sint_lt [of p] by simp
  have "(scast p :: int64) = word_of_int (sint p)"
    by (simp add: of_int_sint)
  then have "uint (scast p :: int64) = sint p mod 2 ^ 64"
    by (simp only: uint_word_of_int) simp
  also have "\<dots> = sint p"
    using assms lt by simp
  finally show ?thesis
    by (simp add: unat_eq_nat_uint)
qed

lemma gflops_exact:
  assumes "0 \<le> sint (p :: int32)" and "sint p * 1100048498688 < 2 ^ 64"
  shows "gflops p delta = real_of_int (sint p) * 1100048498688 / delta / 1000000000"
proof -
  have "unat (scast p :: int64) * unat OPS_PER_MUL < 2 ^ 64"
    using assms by (simp add: unat_scast_nonneg OPS_PER_MUL_def nat_less_iff nat_mult_distrib)
  then have "unat ((scast p :: int64) * OPS_PER_MUL) = unat (scast p :: int64) * unat OPS_PER_MUL"
    by (simp add: unat_mult_lem [THEN iffD1])
  then have "real (unat ((scast p :: int64) * OPS_PER_MUL)) = real_of_int (sint p) * 1100048498688"
    using assms(1) by (simp add: unat_scast_nonneg OPS_PER_MUL_def del: of_nat_unat)
  then show ?thesis
    unfolding gflops_def by (simp del: of_nat_unat)
qed

lemma clientTimeDelta_exact:
  assumes "(t0 :: filetime) \<le> t"
  shows "clientTimeDelta t t0 = (real (unat t) - real (unat t0)) / 10000000"
proof -
  have "unat t0 \<le> unat t"
    using assms by (simp add: word_le_nat_alt)
  moreover have "unat (t - t0) = unat t - unat t0"
    using assms by (simp add: unat_sub)
  ultimately have "real (unat (t - t0)) = real (unat t) - real (unat t0)"
    by (simp add: of_nat_diff del: of_nat_unat)
  then show ?thesis
    unfolding clientTimeDelta_def by (simp del: of_nat_unat)
qed

lemma clientTimeDelta_positive: "(0 < clientTimeDelta t t0) = (t \<noteq> t0)"
proof -
  have "(0 < real (unat (t - t0))) = (t - t0 \<noteq> 0)"
    by (simp add: unat_gt_0 del: of_nat_unat)
  then show ?thesis
    unfolding clientTimeDelta_def by (simp del: of_nat_unat)
qed

lemma report_clientGflops:
  assumes "i < length (clientGflops m)" and "processed \<noteq> - 1"
  shows "clientGflops (report i processed errors t m) ! i =
     (if t \<noteq> clientUpdateTime m ! i \<and> \<not> clientFirstUpdate m ! i
      then gflops processed (clientTimeDelta t (clientUpdateTime m ! i)) else 0)"
  using assms by (simp add: report_def Let_def clientTimeDelta_positive)

text \<open>
  What the code does when the clock does not go back: for a report that is not a
  sentinel, carries \<open>n \<ge> 0\<close> iterations with \<open>n * OPS_PER_MUL\<close> below \<open>2\<^sup>6\<^sup>4\<close>, and is read
  at a tick count \<open>t\<close> not before the stored one \<open>t0\<close>, the throughput is
  \<open>n * OPS_PER_MUL\<close> divided by the seconds between \<open>t0\<close> and \<open>t\<close> (in units of \<open>10\<^sup>9\<close>
  operations per second) if it is not the client's first report and \<open>t0 < t\<close>, and 0
  otherwise; the stored timestamp becomes \<open>t\<close> in either case.
\<close>

lemma report_throughput:
  assumes "wf_monitor n m" and "i < n" and "processed \<noteq> - 1"
    and "0 \<le> sint processed" and "sint processed * 1100048498688 < 2 ^ 64"
    and "clientUpdateTime m ! i \<le> t"
  shows "clientGflops (report i processed errors t m) ! i =
      (if \<not> clientFirstUpdate m ! i \<and> clientUpdateTime m ! i < t
       then real_of_int (sint processed) * 1100048498688
            / ((real (unat t) - real (unat (clientUpdateTime m ! i))) / 10000000) / 1000000000
       else 0)
    \<and> clientUpdateTime (report i processed errors t m) ! i = t
    \<and> \<not> clientFirstUpdate (report i processed errors t m) ! i"
proof -
  have len: "i < length (clientGflops m)" "i < length (clientUpdateTime m)"
    "i < length (clientFirstUpdate m)"
    using assms(1,2) by (simp_all add: wf_monitor_def)
  have lt: "(clientUpdateTime m ! i < t) = (t \<noteq> clientUpdateTime m ! i)"
    using assms(6) by auto
  have g: "clientGflops (report i processed errors t m) ! i =
      (if \<not> clientFirstUpdate m ! i \<and> clientUpdateTime m ! i < t
       then real_of_int (sint processed) * 1100048498688
            / ((real (unat t) - real (unat (clientUpdateTime m ! i))) / 10000000) / 1000000000
       else 0)"
    unfolding report_clientGflops [OF len(1) assms(3)] lt
      gflops_exact [OF assms(4,5)] clientTimeDelta_exact [OF assms(6)]
    by (simp only: conj_commute)
  have u: "clientUpdateTime (report i processed errors t m) ! i = t"
    using len(2) assms(3) by (simp add: report_clientUpdateTime)
  have f: "\<not> clientFirstUpdate (report i processed errors t m) ! i"
    using len(3) assms(3) by (simp add: report_clientFirstUpdate nth_list_update)
  show ?thesis
    using g u f by (intro conjI)
qed

text \<open>
  A second report of 1000 iterations two seconds after the first, and the first report.
\<close>

lemma report_throughput_example:
  "clientGflops (report 0 1000 0 40000000 (report 0 1000 0 20000000 (init_monitor [0]))) ! 0
     = 1000 * 1100048498688 / 2 / 1000000000
   \<and> clientUpdateTime (report 0 1000 0 40000000 (report 0 1000 0 20000000 (init_monitor [0]))) ! 0
     = 40000000
   \<and> clientGflops (report 0 1000 0 20000000 (init_monitor [0])) ! 0 = 0"
proof -
  let ?m1 = "report 0 1000 0 20000000 (init_monitor [0])"
  have m1: "?m1 = \<lparr>clientTemp = [0], clientErrors = [0], clientCalcs = [1000],
       clientUpdateTime = [20000000], clientGflops = [0], clientFaulty = [False],
       clientFirstUpdate = [False], nextReport = 10, childReport = True, gpuIter = 0\<rparr>"
    by (simp add: report_def Let_def init_monitor_def clientTimeDelta_def)
  have wf0: "wf_monitor 1 (init_monitor [0])"
    by (simp add: wf_monitor_def init_monitor_def)
  have wf1: "wf_monitor 1 ?m1"
    unfolding m1 by (simp add: wf_monitor_def)
  have p: "(1000 :: int32) \<noteq> - 1" "0 \<le> sint (1000 :: int32)"
    "sint (1000 :: int32) * 1100048498688 < 2 ^ 64"
    by simp_all
  have t1: "clientUpdateTime ?m1 ! 0 \<le> 40000000"
    unfolding m1 by simp
  have t0: "clientUpdateTime (init_monitor [0]) ! 0 \<le> 20000000"
    by (simp add: init_monitor_def)
  show ?thesis
    using report_throughput [where i = 0 and errors = 0, OF wf1 _ p t1]
      report_throughput [where i = 0 and errors = 0, OF wf0 _ p t0]
    unfolding m1 by (simp add: init_monitor_def)
qed

subsection \<open>The poll loop\<close>

lemma poll_phase_wf: "wf_monitor n m \<Longrightarrow> wf_monitor n (poll_phase n inp m)"
  by (simp add: poll_phase_def Let_def poll_clients_wf updateTemps_wf split: option.split)

lemma poll_phase_clientFaulty: "clientFaulty (poll_phase n inp m) = clientFaulty m"
  by (simp add: poll_phase_def Let_def poll_clients_clientFaulty updateTemps_frame split: option.split)

lemma poll_phase_clientCalcs:
  "clientCalcs (poll_phase n inp m) = clientCalcs (poll_clients n (p_polls inp) m)"
  by (simp add: poll_phase_def Let_def updateTemps_frame split: option.split)

lemma oneAlive_iff: "oneAlive m = (\<exists>c \<in> set (clientCalcs m). c \<noteq> - 1)"
  by (simp add: oneAlive_def list_ex_iff)

lemma pass_Break:
  "startTime + runTime < p_thisTime inp \<Longrightarrow> pass n startTime runTime inp m = (Break, [])"
  by (simp add: pass_def)

lemma pass_unfold:
  assumes "\<not> startTime + runTime < p_thisTime inp"
  shows "pass n startTime runTime inp m =
     (if oneAlive (poll_phase n inp m)
      then (Continue (fst (render (p_thisTime inp) startTime runTime (poll_phase n inp m))),
            snd (render (p_thisTime inp) startTime runTime (poll_phase n inp m)))
      else (Exit ENOMEDIUM,
            snd (render (p_thisTime inp) startTime runTime (poll_phase n inp m)) @ [NoClientsAlive]))"
  using assms
  by (simp add: pass_def Let_def split_beta oneAlive_def render_clientCalcs)

lemma pass_Continue:
  assumes "pass n startTime runTime inp m = (Continue m', out)"
  shows "m' = fst (render (p_thisTime inp) startTime runTime (poll_phase n inp m))
    \<and> out = snd (render (p_thisTime inp) startTime runTime (poll_phase n inp m))"
proof (cases "startTime + runTime < p_thisTime inp")
  case True
  then show ?thesis using assms by (simp add: pass_Break)
next
  case False
  then show ?thesis
    using assms by (simp add: pass_unfold split: if_splits)
qed

lemma pass_wf:
  assumes "wf_monitor n m" and "pass n startTime runTime inp m = (Continue m', out)"
  shows "wf_monitor n m'"
  using pass_Continue [OF assms(2)] assms(1) by (simp add: render_wf poll_phase_wf)

lemma pass_faulty:
  assumes "wf_monitor n m" and "i < n"
    and "pass n startTime runTime inp m = (Continue m', out)"
    and "clientFaulty m ! i \<or> (\<exists>el c g errs tmp. Progress el c g errs tmp \<in> set out \<and> errs ! i \<noteq> 0)"
  shows "clientFaulty m' ! i"
proof -
  let ?m2 = "poll_phase n inp m"
  have m': "m' = fst (render (p_thisTime inp) startTime runTime ?m2)"
    and out: "out = snd (render (p_thisTime inp) startTime runTime ?m2)"
    using pass_Continue [OF assms(3)] by simp_all
  have wf2: "wf_monitor n ?m2"
    using assms(1) by (rule poll_phase_wf)
  then have len: "i < length (clientFaulty ?m2)" "length (clientErrors ?m2) = length (clientFaulty ?m2)"
    using assms(2) by (simp_all add: wf_monitor_def)
  have old: "clientFaulty ?m2 ! i = clientFaulty m ! i"
    by (simp add: poll_phase_clientFaulty)
  from assms(4) show ?thesis
  proof
    assume "clientFaulty m ! i"
    then show ?thesis
      using old len by (simp add: m' render_clientFaulty mark_faulty_nth)
  next
    assume "\<exists>el c g errs tmp. Progress el c g errs tmp \<in> set out \<and> errs ! i \<noteq> 0"
    then have "childReport ?m2 \<and> clientErrors ?m2 ! i \<noteq> 0"
      unfolding out render_progress by auto
    then show ?thesis
      using len by (simp add: m' render_clientFaulty mark_faulty_nth)
  qed
qed

lemma monitor_loop_faulty:
  assumes "wf_monitor n m" and "i < n"
    and "monitor_loop n startTime runTime passes m = (r, out)"
    and "r = Deadline m' \<or> r = Polling m'"
    and "clientFaulty m ! i \<or> (\<exists>el c g errs tmp. Progress el c g errs tmp \<in> set out \<and> errs ! i \<noteq> 0)"
  shows "clientFaulty m' ! i"
  using assms
proof (induction passes arbitrary: m out)
  case Nil
  then show ?case by auto
next
  case (Cons inp rest)
  obtain pr o1 where p: "pass n startTime runTime inp m = (pr, o1)"
    by (cases "pass n startTime runTime inp m") auto
  show ?case
  proof (cases pr)
    case Break
    then have "r = Deadline m" "out = o1"
      using Cons.prems(3) p by simp_all
    moreover have "o1 = []"
      using p Break by (cases "startTime + runTime < p_thisTime inp") (simp_all add: pass_Break pass_unfold split: if_splits)
    ultimately show ?thesis
      using Cons.prems(4,5) by auto
  next
    case (Exit code)
    then have "r = Aborted code"
      using Cons.prems(3) p by simp
    then show ?thesis
      using Cons.prems(4) by auto
  next
    case (Continue m1)
    obtain r2 o2 where l: "monitor_loop n startTime runTime rest m1 = (r2, o2)"
      by (cases "monitor_loop n startTime runTime rest m1") auto
    have r: "r2 = r" and out: "out = o1 @ o2"
      using Cons.prems(3) p Continue l by simp_all
    have p1: "pass n startTime runTime inp m = (Continue m1, o1)"
      using p Continue by simp
    have wf1: "wf_monitor n m1"
      using Cons.prems(1) p1 by (rule pass_wf)
    have "clientFaulty m1 ! i \<or> (\<exists>el c g errs tmp. Progress el c g errs tmp \<in> set o2 \<and> errs ! i \<noteq> 0)"
    proof (cases "clientFaulty m ! i \<or> (\<exists>el c g errs tmp. Progress el c g errs tmp \<in> set o1 \<and> errs ! i \<noteq> 0)")
      case True
      then have "clientFaulty m1 ! i"
        using Cons.prems(1,2) p1 by (intro pass_faulty)
      then show ?thesis ..
    next
      case False
      then show ?thesis
        using Cons.prems(5) unfolding out set_append Un_iff by blast
    qed
    then show ?thesis
      using wf1 Cons.prems(2) l r Cons.prems(4) by (intro Cons.IH [of m1 o2]) simp_all
  qed
qed

lemma monitor_loop_append:
  "monitor_loop n startTime runTime (pre @ post) m =
     (case monitor_loop n startTime runTime pre m of
        (Polling m1, o1) \<Rightarrow>
          (let (r, o2) = monitor_loop n startTime runTime post m1 in (r, o1 @ o2))
      | (Deadline m1, o1) \<Rightarrow> (Deadline m1, o1)
      | (Aborted code, o1) \<Rightarrow> (Aborted code, o1))"
proof (induction pre arbitrary: m)
  case Nil
  then show ?case by (simp add: split_beta)
next
  case (Cons inp pre)
  obtain pr o1 where p: "pass n startTime runTime inp m = (pr, o1)"
    by (cases "pass n startTime runTime inp m") auto
  show ?case
  proof (cases pr)
    case Break
    then show ?thesis using p by simp
  next
    case (Exit code)
    then show ?thesis using p by simp
  next
    case (Continue m1)
    then show ?thesis
      using p Cons.IH [of m1]
      by (simp add: split_beta split: loop_result.split prod.split)
  qed
qed

lemma monitor_loop_wf:
  assumes "wf_monitor n m"
    and "monitor_loop n startTime runTime passes m = (r, out)"
    and "r = Deadline m' \<or> r = Polling m'"
  shows "wf_monitor n m'"
  using assms
proof (induction passes arbitrary: m out)
  case Nil
  then show ?case by auto
next
  case (Cons inp rest)
  obtain pr o1 where p: "pass n startTime runTime inp m = (pr, o1)"
    by (cases "pass n startTime runTime inp m") auto
  show ?case
  proof (cases pr)
    case Break
    then show ?thesis using p Cons.prems by auto
  next
    case (Exit code)
    then show ?thesis using p Cons.prems by auto
  next
    case (Continue m1)
    obtain r2 o2 where l: "monitor_loop n startTime runTime rest m1 = (r2, o2)"
      by (cases "monitor_loop n startTime runTime rest m1") auto
    have "r2 = r"
      using Cons.prems(2) p Continue l by simp
    moreover have "wf_monitor n m1"
      using Cons.prems(1) p Continue by (intro pass_wf [of n m startTime runTime inp m1 o1]) simp_all
    ultimately show ?thesis
      using l Cons.prems(3) by (intro Cons.IH [of m1 o2]) simp_all
  qed
qed

lemma shutdown_verdict:
  assumes "i < length threads"
  shows "Printed (Verdict i (if clientFaulty m ! i then ''FAULTY'' else ''OK''))
     \<in> set (shutdown grace threads tempValid n m)"
  using assms by (simp add: shutdown_def reap_def)

lemma init_monitor_wf: "wf_monitor (length stamps) (init_monitor stamps)"
  by (simp add: wf_monitor_def init_monitor_def)

subsection \<open>The faulty flag\<close>

text \<open>
  C6 (as stated, refuted). The claim promises the verdict of the terminal summary for
  every run. A run of one device shows five errors in its first window, so the flag is
  set; then the device sends the sentinel, no client is alive, and the process ends in
  \<^verbatim>\<open>exit(ENOMEDIUM)\<close> inside the loop (lines 715-718): the summary of lines 753-755 is
  never printed, and no verdict with it.
\<close>

theorem faulty_verdict_counterexample:
  "listenClients [0] [(True, 259)] True 0 3600 30
     [report_pass 5 100 5 10, report_pass 6 (- 1) (- 1) 20]
   = Exited 123
       [Printed (Progress (5 / 36) [100] [0] [5] [0]),
        Printed (Progress (1 / 6) [- 1] [0] [4] [0]),
        Printed NoClientsAlive]"
  by (simp add: listenClients_def eval_defs upt_rec)

text \<open>
  C6 (amended). Take any run of the monitor, however it ends, and any point between two
  of its passes at which the flag of device \<open>i\<close> has been set or a progress line has shown
  a nonzero error count for device \<open>i\<close>. The flag is set at that point, and it is set in
  the state the run ends in when the loop is left at the deadline (or is still polling),
  whatever was reported in between and whether or not the device is alive then; and when
  the loop is left at the deadline, the summary printed by the shutdown names the device
  \<^verbatim>\<open>FAULTY\<close>. A run that ends because no client is alive prints no summary.
\<close>

theorem faulty_is_sticky:
  assumes "wf_monitor n m" and "i < n" and "length threads = n"
    and "monitor_loop n startTime runTime pre m = (Polling m1, out1)"
    and "clientFaulty m ! i
       \<or> (\<exists>el c g errs tmp. Progress el c g errs tmp \<in> set out1 \<and> errs ! i \<noteq> 0)"
    and "monitor_loop n startTime runTime (pre @ post) m = (r, out)"
  shows "clientFaulty m1 ! i
    \<and> (r = Deadline m' \<or> r = Polling m' \<longrightarrow> clientFaulty m' ! i)
    \<and> (r = Deadline m' \<longrightarrow>
         Printed (Verdict i ''FAULTY'') \<in> set (shutdown grace threads tempValid n m'))"
proof -
  have f1: "clientFaulty m1 ! i"
    using assms(1,2,4) _ assms(5) by (rule monitor_loop_faulty) simp
  have wf1: "wf_monitor n m1"
    using assms(1,4) by (rule monitor_loop_wf) simp
  obtain r2 o2 where post: "monitor_loop n startTime runTime post m1 = (r2, o2)"
    by (cases "monitor_loop n startTime runTime post m1") auto
  have r: "r2 = r"
    using assms(6) assms(4) post by (simp add: monitor_loop_append)
  have end_flag: "clientFaulty m' ! i" if "r = Deadline m' \<or> r = Polling m'"
    using wf1 assms(2) post _ disjI1 [OF f1] by (rule monitor_loop_faulty) (use that r in simp)
  have "i < length threads"
    using assms(2,3) by simp
  from shutdown_verdict [OF this, of m' grace tempValid n] f1 end_flag show ?thesis
    by auto
qed

text \<open>
  A run of two devices. Device 0 shows five errors in the first window; then its pipe
  breaks and it is marked dead, while device 1 goes on reporting; the summary at 11%
  clears the error counters and the next window shows no error; then the deadline. At
  the end device 0 is dead, its error counter is 0, its flag is set and its verdict is
  \<^verbatim>\<open>FAULTY\<close>.
\<close>

lemma example_first_pass:
  "monitor_loop 2 0 3600
     [example_pass 36 [PeekOk 8 10 (ReadOk 100) (ReadOk 5), PeekOk 8 10 (ReadOk 100) (ReadOk 0)]]
     (init_monitor [0, 0])
   = (Polling \<lparr>clientTemp = [0, 0], clientErrors = [5, 0], clientCalcs = [100, 100],
         clientUpdateTime = [10, 10], clientGflops = [0, 0],
         clientFaulty = [True, False], clientFirstUpdate = [False, False],
         nextReport = 10, childReport = True, gpuIter = 0\<rparr>,
      [Progress 1 [100, 100] [0, 0] [5, 0] [0, 0]])"
  by (simp add: eval_defs upt_rec)

lemma example_run:
  "monitor_loop 2 0 3600
     ([example_pass 36 [PeekOk 8 10 (ReadOk 100) (ReadOk 5), PeekOk 8 10 (ReadOk 100) (ReadOk 0)]]
      @ [example_pass 400 [PeekFailed 109, PeekOk 8 20 (ReadOk 100) (ReadOk 0)],
         example_pass 500 [PeekFailed 109, PeekOk 8 30 (ReadOk 100) (ReadOk 0)],
         example_pass 4000 [PeekFailed 109, PeekOk 0 0 ReadFailed ReadFailed]])
     (init_monitor [0, 0])
   = (Deadline \<lparr>clientTemp = [0, 0], clientErrors = [0, 0], clientCalcs = [- 1, 300],
         clientUpdateTime = [10, 30], clientGflops = [0, 550024249344 / 5],
         clientFaulty = [True, False], clientFirstUpdate = [False, False],
         nextReport = 190 / 9, childReport = True, gpuIter = 0\<rparr>,
      [Progress 1 [100, 100] [0, 0] [5, 0] [0, 0],
       Progress (100 / 9) [- 1, 200] [0, 550024249344 / 5] [5, 0] [0, 0],
       Summary,
       Progress (125 / 9) [- 1, 300] [0, 550024249344 / 5] [0, 0] [0, 0]])"
  by (simp add: eval_defs upt_rec)

theorem faulty_is_sticky_witness:
  "\<exists>m1 m'.
     fst (monitor_loop 2 0 3600
       [example_pass 36 [PeekOk 8 10 (ReadOk 100) (ReadOk 5), PeekOk 8 10 (ReadOk 100) (ReadOk 0)]]
       (init_monitor [0, 0])) = Polling m1
     \<and> clientFaulty m1 ! 0
     \<and> fst (monitor_loop 2 0 3600
       ([example_pass 36 [PeekOk 8 10 (ReadOk 100) (ReadOk 5), PeekOk 8 10 (ReadOk 100) (ReadOk 0)]]
        @ [example_pass 400 [PeekFailed 109, PeekOk 8 20 (ReadOk 100) (ReadOk 0)],
           example_pass 500 [PeekFailed 109, PeekOk 8 30 (ReadOk 100) (ReadOk 0)],
           example_pass 4000 [PeekFailed 109, PeekOk 0 0 ReadFailed ReadFailed]])
       (init_monitor [0, 0])) = Deadline m'
     \<and> clientCalcs m' ! 0 = - 1 \<and> clientErrors m' ! 0 = 0 \<and> clientFaulty m' ! 0
     \<and> Printed (Verdict 0 ''FAULTY'')
          \<in> set (shutdown 30 [(True, 0), (True, 259)] True 2 m')"
proof -
  let ?M1 = "\<lparr>clientTemp = [0, 0], clientErrors = [5, 0], clientCalcs = [100, 100],
         clientUpdateTime = [10, 10], clientGflops = [0, 0],
         clientFaulty = [True, False], clientFirstUpdate = [False, False],
         nextReport = 10, childReport = True, gpuIter = 0\<rparr>"
  let ?M = "\<lparr>clientTemp = [0, 0], clientErrors = [0, 0], clientCalcs = [- 1, 300],
         clientUpdateTime = [10, 30], clientGflops = [0, 550024249344 / 5],
         clientFaulty = [True, False], clientFirstUpdate = [False, False],
         nextReport = 190 / 9, childReport = True, gpuIter = 0\<rparr>"
  have wf: "wf_monitor 2 (init_monitor [0, 0])"
    by (simp add: wf_monitor_def init_monitor_def)
  have seen: "clientFaulty (init_monitor [0, 0]) ! 0
      \<or> (\<exists>el c g errs tmp. Progress el c g errs tmp \<in> set [Progress 1 [100, 100] [0, 0] [5, 0] [0, 0]]
            \<and> errs ! 0 \<noteq> 0)"
    by (intro disjI2 exI [of _ 1] exI [of _ "[100, 100]"] exI [of _ "[0, 0]"] exI [of _ "[5, 0]"])
      simp
  have "clientFaulty ?M1 ! 0
      \<and> (Deadline ?M = Deadline ?M \<or> Deadline ?M = Polling ?M \<longrightarrow> clientFaulty ?M ! 0)
      \<and> (Deadline ?M = Deadline ?M \<longrightarrow>
           Printed (Verdict 0 ''FAULTY'')
             \<in> set (shutdown 30 [(True, 0), (True, 259)] True 2 ?M))"
    by (rule faulty_is_sticky [OF wf _ _ example_first_pass seen example_run]) simp_all
  then show ?thesis
    unfolding example_first_pass example_run by simp
qed

subsection \<open>No client alive\<close>

text \<open>
  Clients found dead at the start of a pass stay dead through its polls when no pipe
  delivers a report, as is the case after a sentinel: the writer has closed the pipe.
\<close>

lemma dead_workers_stay_dead:
  assumes "\<forall>c \<in> set (clientCalcs m). c = - 1"
    and "\<forall>i < n. \<not> delivers_report (p_polls inp ! i)"
  shows "\<forall>c \<in> set (clientCalcs (poll_phase n inp m)). c = - 1"
  using assms by (simp add: poll_phase_clientCalcs poll_clients_dead)

text \<open>
  C2. In a pass that starts before the deadline has passed, however far away it is: if
  every client's count is the dead marker once the pipes have been polled, or is so when
  the pass starts and no pipe delivers a report in it, the pass ends the process with
  \<^verbatim>\<open>exit(ENOMEDIUM)\<close>, a nonzero code, and so does the loop, whatever passes would follow.
  The check is made in the very pass that sees the last client die, before the clock is
  looked at again.
\<close>

theorem all_workers_dead:
  assumes "\<not> startTime + runTime < p_thisTime inp"
    and "(\<forall>c \<in> set (clientCalcs (poll_phase n inp m)). c = - 1)
       \<or> ((\<forall>c \<in> set (clientCalcs m). c = - 1)
           \<and> (\<forall>i < n. \<not> delivers_report (p_polls inp ! i)))"
  shows "fst (pass n startTime runTime inp m) = Exit ENOMEDIUM
    \<and> fst (monitor_loop n startTime runTime (inp # rest) m) = Aborted ENOMEDIUM
    \<and> ENOMEDIUM \<noteq> 0"
proof -
  have "\<forall>c \<in> set (clientCalcs (poll_phase n inp m)). c = - 1"
    using assms(2) dead_workers_stay_dead [of m n inp] by blast
  then have "\<not> oneAlive (poll_phase n inp m)"
    by (simp add: oneAlive_iff)
  then have "fst (pass n startTime runTime inp m) = Exit ENOMEDIUM"
    using assms(1) by (simp add: pass_unfold)
  then show ?thesis
    by (cases "pass n startTime runTime inp m") (simp add: ENOMEDIUM_def)
qed

text \<open>
  The theorem at a single client whose first message is the sentinel, an hour before
  the deadline.
\<close>

theorem all_workers_dead_witness:
  "fst (pass 1 0 3600 (report_pass 5 (- 1) (- 1) 10) (init_monitor [0])) = Exit 123
   \<and> fst (monitor_loop 1 0 3600 [report_pass 5 (- 1) (- 1) 10, quiet_pass 6] (init_monitor [0]))
       = Aborted 123"
proof -
  have time: "\<not> (0 :: int) + 3600 < p_thisTime (report_pass 5 (- 1) (- 1) 10)"
    by (simp add: report_pass_def)
  have dead: "\<forall>c \<in> set (clientCalcs (poll_phase 1 (report_pass 5 (- 1) (- 1) 10) (init_monitor [0]))).
      c = - 1"
    by (simp add: eval_defs)
  show ?thesis
    using all_workers_dead [OF time disjI1 [OF dead], of "[quiet_pass 6]"]
    by (simp add: ENOMEDIUM_def)
qed

subsection \<open>Progress lines\<close>

text \<open>
  C4 (the code departs from the claim). \<^verbatim>\<open>childReport\<close> is declared before the loop
  (line 576) and never cleared: after the first report every pass prints a progress
  line. Here the first pass reads a report, the second finds nothing on the pipe, and
  both print. The comment at line 660 says: print progress only if we received new data.
\<close>

theorem progress_without_report:
  "\<not> delivers_report (p_polls (quiet_pass 2) ! 0)
   \<and> snd (monitor_loop 1 0 100 [report_pass 1 5 0 10, quiet_pass 2] (init_monitor [0]))
       = [Progress 1 [5] [0] [0] [0], Progress 2 [5] [0] [0] [0]]"
  by (simp add: eval_defs delivers_report_def)

text \<open>
  What the code does: a pass before the deadline prints a progress line exactly when a
  report is consumed in it or \<^verbatim>\<open>childReport\<close> is set already, as it is from the first
  report on.
\<close>

lemma fold_poll_childReport:
  "childReport (fold (\<lambda>i. poll_client i (polls ! i)) js m)
     = (childReport m \<or> (\<exists>i \<in> set js. delivers_report (polls ! i)))"
  by (induction js arbitrary: m) (auto simp: poll_client_childReport)

lemma poll_phase_childReport:
  "childReport (poll_phase n inp m)
     = (childReport m \<or> (\<exists>i < n. delivers_report (p_polls inp ! i)))"
  by (auto simp: poll_phase_def Let_def poll_clients_def fold_poll_childReport updateTemps_frame
      split: option.split)

lemma pass_progress:
  assumes "\<not> startTime + runTime < p_thisTime inp"
  shows "(\<exists>el c g errs tmp. Progress el c g errs tmp \<in> set (snd (pass n startTime runTime inp m)))
     = (childReport m \<or> (\<exists>i < n. delivers_report (p_polls inp ! i)))"
  using assms by (auto simp: pass_unfold render_progress poll_phase_childReport)

subsection \<open>Shutdown\<close>

lemma terminate_threads_set:
  "(TerminateThread i \<in> set (terminate_threads threads))
     = (i < length threads \<and> fst (threads ! i) \<and> snd (threads ! i) = STILL_ACTIVE)"
  by (auto simp: terminate_threads_def)

lemma terminate_threads_only:
  "a \<in> set (terminate_threads threads) \<Longrightarrow> \<exists>i. a = TerminateThread i"
  by (auto simp: terminate_threads_def split: if_splits)

lemma length_concat_le:
  "(\<And>x. length (f x) \<le> k) \<Longrightarrow> length (concat (map f xs)) \<le> k * length xs"
proof (induction xs)
  case Nil
  then show ?case by simp
next
  case (Cons x xs)
  have "length (f x) \<le> k"
    by (rule Cons.prems)
  moreover have "length (concat (map f xs)) \<le> k * length xs"
    using Cons.prems by (rule Cons.IH)
  ultimately show ?case by simp
qed

lemma terminate_threads_length: "length (terminate_threads threads) \<le> length threads"
  unfolding terminate_threads_def
  using length_concat_le [of "\<lambda>i. if fst (threads ! i) \<and> snd (threads ! i) = STILL_ACTIVE
                       then [TerminateThread i] else []" 1 "[0..<length threads]"]
  by simp

lemma close_handles_length:
  "length (concat (map (\<lambda>i. [CloseHandle (ClientHandle i), CloseHandle (ClientThread i)]) [0..<n]))
     = 2 * n"
  by (induction n) simp_all

lemma shutdown_split:
  "shutdown grace threads tempValid n m
     = [Printed TerminatingThreads, SetRunning False, SleepFor grace]
       @ reap threads tempValid n m"
  by (simp add: shutdown_def)

lemmas reap_eq = reap_def

lemma reap_waits: "a \<in> set (reap threads tempValid n m) \<Longrightarrow> waits a = 0"
  by (auto simp: reap_eq waits_def dest: terminate_threads_only split: if_splits)

lemma reap_terminate:
  "i < length threads \<Longrightarrow>
     (TerminateThread i \<in> set (reap threads tempValid n m))
       = (fst (threads ! i) \<and> snd (threads ! i) = STILL_ACTIVE)"
  by (auto simp: reap_eq terminate_threads_set)

lemma reap_process:
  "(TerminateProcess \<in> set (reap threads tempValid n m)) = tempValid"
  by (auto simp: reap_eq dest: terminate_threads_only)

lemma reap_length:
  "length (reap threads tempValid n m) \<le> 2 * length threads + 2 * n + 5"
  using terminate_threads_length [of threads]
  by (simp add: reap_eq close_handles_length)

lemma sum_waits_zero: "(\<And>a. a \<in> set xs \<Longrightarrow> waits a = 0) \<Longrightarrow> sum_list (map waits xs) = 0"
  by (induction xs) simp_all

text \<open>
  C7. When the loop is left at the deadline, \<^verbatim>\<open>listenClients\<close> clears \<^verbatim>\<open>g_running\<close>, sleeps
  for the grace period, and then goes through a sequence in which nothing waits: it
  terminates exactly the threads reported still active, terminates the telemetry process
  if one was started, closes the handles and prints \<^verbatim>\<open>done\<close> and the verdicts. The
  sequence after the sleep has at most \<open>2 * threads + 2 * clients + 5\<close> actions, so the
  time waited after the deadline is the grace period and nothing else. Time is counted
  in the waits the code asks for; how long a call of the operating system takes is not
  modelled.
\<close>

theorem shutdown_sequence:
  assumes "monitor_loop (length stamps) startTime runTime passes (init_monitor stamps)
      = (Deadline m, out)"
  shows "\<exists>rest.
      listenClients stamps threads tempValid startTime runTime grace passes
        = Finished (map Printed out
            @ [Printed TerminatingThreads, SetRunning False, SleepFor grace] @ rest)
      \<and> (\<forall>a \<in> set rest. waits a = 0)
      \<and> (\<forall>i < length threads.
            (TerminateThread i \<in> set rest) = (fst (threads ! i) \<and> snd (threads ! i) = STILL_ACTIVE))
      \<and> (TerminateProcess \<in> set rest) = tempValid
      \<and> Printed DoneMsg \<in> set rest
      \<and> length rest \<le> 2 * length threads + 2 * length stamps + 5
      \<and> sum_list (map waits
            ([Printed TerminatingThreads, SetRunning False, SleepFor grace] @ rest)) = max 0 grace"
proof (intro exI [of _ "reap threads tempValid (length stamps) m"] conjI ballI allI impI)
  show "listenClients stamps threads tempValid startTime runTime grace passes
        = Finished (map Printed out
            @ [Printed TerminatingThreads, SetRunning False, SleepFor grace]
            @ reap threads tempValid (length stamps) m)"
    using assms by (simp add: listenClients_def shutdown_split)
next
  fix a
  assume "a \<in> set (reap threads tempValid (length stamps) m)"
  then show "waits a = 0"
    by (rule reap_waits)
next
  fix i
  assume "i < length threads"
  then show "(TerminateThread i \<in> set (reap threads tempValid (length stamps) m))
      = (fst (threads ! i) \<and> snd (threads ! i) = STILL_ACTIVE)"
    by (rule reap_terminate)
next
  show "(TerminateProcess \<in> set (reap threads tempValid (length stamps) m)) = tempValid"
    by (rule reap_process)
next
  show "Printed DoneMsg \<in> set (reap threads tempValid (length stamps) m)"
    by (simp add: reap_eq)
next
  show "length (reap threads tempValid (length stamps) m)
      \<le> 2 * length threads + 2 * length stamps + 5"
    by (rule reap_length)
next
  have "sum_list (map waits (reap threads tempValid (length stamps) m)) = 0"
    by (rule sum_waits_zero) (rule reap_waits)
  then show "sum_list (map waits
            ([Printed TerminatingThreads, SetRunning False, SleepFor grace]
             @ reap threads tempValid (length stamps) m)) = max 0 grace"
    by (simp add: waits_def)
qed

text \<open>
  The theorem at one client whose thread is still active after a grace period of 30
  seconds.
\<close>

lemma example_deadline:
  "monitor_loop (length [0 :: filetime]) 0 3600 [quiet_pass 4000] (init_monitor [0])
     = (Deadline (init_monitor [0]), [])"
  by (simp add: eval_defs)

theorem shutdown_sequence_witness:
  "\<exists>rest.
      listenClients [0] [(True, 259)] True 0 3600 30 [quiet_pass 4000]
        = Finished ([Printed TerminatingThreads, SetRunning False, SleepFor 30] @ rest)
      \<and> TerminateThread 0 \<in> set rest \<and> TerminateProcess \<in> set rest
      \<and> Printed DoneMsg \<in> set rest \<and> length rest \<le> 9
      \<and> sum_list (map waits ([Printed TerminatingThreads, SetRunning False, SleepFor 30] @ rest))
          = 30"
  using shutdown_sequence [OF example_deadline, of "[(True, 259)]" True 30]
  by (simp add: STILL_ACTIVE_def) blast

subsection \<open>Cancellation\<close>







end
